theory Spec2Isabelle
  imports Main
begin

section \<open>Data model\<close>

text \<open>
  The library \<^verbatim>\<open>src/index.ts\<close> runs inside browser windows. A window is known by a
  handle; every listener (a closure with its own identity), every channel handle
  returned by \<^verbatim>\<open>createChannel\<close> and every promise returned by \<^verbatim>\<open>request\<close> gets a
  number of its own when it is created.

  Modelling assumptions, all taken from the types the source declares:
  payloads are plain data (structured clone and \<^verbatim>\<open>JSON.stringify\<close> succeed and clone
  is the identity), \<^verbatim>\<open>event.data\<close> has the shape \<^verbatim>\<open>ChannelMsg\<close> it is cast to, origins
  are compared as strings, and the logger has no effect on the protocol state.
  An exception that no code of the library catches is reported by the host and changes
  nothing in the state of the protocol.
  The value \<^verbatim>\<open>undefined\<close> of a payload is \<open>None\<close>.
\<close>

type_synonym wid = nat
type_synonym lid = nat
type_synonym hid = nat
type_synonym pid = nat

record Window =
  w_origin :: string
  w_parent :: wid
  w_top :: wid

record ErrorDetail =
  msg :: "string option"
  stack :: string

record 'v ChannelMsg =
  success :: bool
  channel :: string
  isSetup :: "bool option"
  data :: "'v option"
  error :: "ErrorDetail option"

record 'v MessageEvent =
  ev_origin :: string
  ev_source :: "wid option"
  ev_data :: "'v ChannelMsg"

text \<open>The second argument of \<^verbatim>\<open>postMessage\<close>: \<^verbatim>\<open>"*"\<close>, the default \<^verbatim>\<open>"/"\<close> (the
  sender's own origin) when it is omitted, or an explicit origin.\<close>

datatype TargetOrigin = AnyOrigin | SenderOrigin | ExactOrigin string

record 'v Posted =
  p_target :: wid
  p_targetOrigin :: TargetOrigin
  p_sender :: wid
  p_msg :: "'v ChannelMsg"

datatype JsError = JsError (err_message: "string option") (err_stack: "string option")

text \<open>How one call of the callback ends. It returns a promise that fulfills with a
  value; or one that rejects with a reason that has properties (an \<^verbatim>\<open>Error\<close>, or any
  value other than \<^verbatim>\<open>null\<close> and \<^verbatim>\<open>undefined\<close>, whose \<^verbatim>\<open>message\<close> and \<^verbatim>\<open>stack\<close> may be
  absent); or one that rejects with \<^verbatim>\<open>null\<close> or \<^verbatim>\<open>undefined\<close>; or the call does not return
  a promise at all, because it throws (or returns a value without \<^verbatim>\<open>then\<close>), so that
  line 124 raises.\<close>

datatype 'v Outcome = Fulfills "'v option" | Rejects JsError | RejectsNullish | Throws

fun returns_promise :: "'v Outcome \<Rightarrow> bool" where
  "returns_promise Throws = False"
| "returns_promise _ = True"

datatype 'v PromiseState = Pending | Resolved "'v option" | Rejected string

text \<open>What a suspended \<^verbatim>\<open>request\<close> call holds while it awaits the setup: its own
  promise, the message and the target window.\<close>

record 'v Waiter =
  wt_promise :: pid
  wt_message :: "'v option"
  wt_windowObj :: wid

text \<open>The three closures the source registers with \<^verbatim>\<open>addEventListener\<close>:
  \<^verbatim>\<open>onMessage\<close> of \<^verbatim>\<open>processSetupMsg\<close> (with the call that awaits its promise, if any),
  \<^verbatim>\<open>messageHandler\<close> of \<^verbatim>\<open>handle\<close> (callback, request topic, response topic) and
  \<^verbatim>\<open>messageHandler\<close> of \<^verbatim>\<open>request\<close> (its promise, response topic).\<close>

datatype 'v Listener =
    OnMessage hid "'v Waiter option"
  | HandleMessageHandler "'v option \<Rightarrow> 'v Outcome" string string
  | RequestMessageHandler pid string

text \<open>A promise returned by the callback that has not settled yet, with what its
  \<^verbatim>\<open>then\<close>/\<^verbatim>\<open>catch\<close> reactions captured.\<close>

record 'v Job =
  j_outcome :: "'v Outcome"
  j_source :: "wid option"
  j_origin :: string
  j_window :: wid
  j_responseChannel :: string

record ChannelHandle =
  h_window :: wid
  h_channel :: string
  h_isSetup :: bool

record 'v World =
  windows :: "wid \<Rightarrow> Window"
  handles :: "hid \<Rightarrow> ChannelHandle"
  next_handle :: hid
  listeners :: "(lid \<times> wid \<times> 'v Listener) list"
  next_listener :: lid
  promises :: "pid \<Rightarrow> 'v PromiseState"
  next_promise :: pid
  queue :: "'v Posted list"
  jobs :: "'v Job list"
  invoked :: "(lid \<times> 'v option) list"

definition init :: "(wid \<Rightarrow> Window) \<Rightarrow> 'v World" where
  "init ws = \<lparr>windows = ws,
     handles = (\<lambda>_. \<lparr>h_window = 0, h_channel = [], h_isSetup = False\<rparr>),
     next_handle = 0, listeners = [], next_listener = 0,
     promises = (\<lambda>_. Pending), next_promise = 0,
     queue = [], jobs = [], invoked = []\<rparr>"

section \<open>Transport\<close>

definition addEventListener :: "wid \<Rightarrow> 'v Listener \<Rightarrow> 'v World \<Rightarrow> 'v World" where
  "addEventListener w f s =
     s\<lparr>listeners := listeners s @ [(next_listener s, w, f)],
       next_listener := Suc (next_listener s)\<rparr>"

definition removeEventListener :: "lid \<Rightarrow> 'v World \<Rightarrow> 'v World" where
  "removeEventListener l s = s\<lparr>listeners := filter (\<lambda>x. fst x \<noteq> l) (listeners s)\<rparr>"

definition postMessage ::
  "wid \<Rightarrow> wid \<Rightarrow> 'v ChannelMsg \<Rightarrow> TargetOrigin \<Rightarrow> 'v World \<Rightarrow> 'v World" where
  "postMessage sender target m t s =
     s\<lparr>queue := queue s @
        [\<lparr>p_target = target, p_targetOrigin = t, p_sender = sender, p_msg = m\<rparr>]\<rparr>"

definition resolve :: "pid \<Rightarrow> 'v option \<Rightarrow> 'v World \<Rightarrow> 'v World" where
  "resolve p v s =
     (case promises s p of
        Pending \<Rightarrow> s\<lparr>promises := (promises s)(p := Resolved v)\<rparr>
      | _ \<Rightarrow> s)"

definition reject :: "pid \<Rightarrow> string \<Rightarrow> 'v World \<Rightarrow> 'v World" where
  "reject p r s =
     (case promises s p of
        Pending \<Rightarrow> s\<lparr>promises := (promises s)(p := Rejected r)\<rparr>
      | _ \<Rightarrow> s)"

section \<open>The channel protocol\<close>

definition requestChannel :: "string \<Rightarrow> string" where
  "requestChannel c = ''request:/'' @ c"

definition responseChannel :: "string \<Rightarrow> string" where
  "responseChannel c = ''response:/'' @ c"

text \<open>JavaScript truthiness of the optional \<^verbatim>\<open>isSetup\<close>.\<close>

definition truthy :: "bool option \<Rightarrow> bool" where
  "truthy b = (case b of None \<Rightarrow> False | Some x \<Rightarrow> x)"

text \<open>\<^verbatim>\<open>channelMsg.error?.msg || "Unknown error"\<close>: an absent error, an absent message
  and the empty message are all falsy.\<close>

definition error_text :: "'v ChannelMsg \<Rightarrow> string" where
  "error_text m =
     (case error m of
        None \<Rightarrow> ''Unknown error''
      | Some d \<Rightarrow>
          (case msg d of
             None \<Rightarrow> ''Unknown error''
           | Some t \<Rightarrow> if t = [] then ''Unknown error'' else t))"

text \<open>The body of \<^verbatim>\<open>request\<close> after its \<^verbatim>\<open>await\<close> (lines 176-214): subscribe, then
  post the request envelope with target origin \<^verbatim>\<open>"*"\<close>.\<close>

definition request_send ::
  "wid \<Rightarrow> string \<Rightarrow> string \<Rightarrow> 'v Waiter \<Rightarrow> 'v World \<Rightarrow> 'v World" where
  "request_send w responseCh requestCh wt s =
     postMessage w (wt_windowObj wt)
       \<lparr>success = True, channel = requestCh, isSetup = None,
        data = wt_message wt, error = None\<rparr>
       AnyOrigin
       (addEventListener w (RequestMessageHandler (wt_promise wt) responseCh) s)"

text \<open>\<^verbatim>\<open>onMessage\<close> (lines 34-51). Resolving the promise of \<^verbatim>\<open>processSetupMsg\<close> resumes
  the call that awaits it, before any other listener or task runs.\<close>

definition onMessage ::
  "lid \<Rightarrow> wid \<Rightarrow> hid \<Rightarrow> 'v Waiter option \<Rightarrow> 'v MessageEvent \<Rightarrow> 'v World \<Rightarrow> 'v World" where
  "onMessage l w h waiter e s =
     (if ev_origin e \<noteq> w_origin (windows s w) then s
      else
        let channelMsg = ev_data e; c = h_channel (handles s h) in
        if channel channelMsg \<noteq> requestChannel c then s
        else if truthy (isSetup channelMsg) then
          let s1 = s\<lparr>handles := (handles s)(h := (handles s h)\<lparr>h_isSetup := True\<rparr>)\<rparr>;
              s2 = removeEventListener l s1
          in (case waiter of
                None \<Rightarrow> s2
              | Some wt \<Rightarrow> request_send w (responseChannel c) (requestChannel c) wt s2)
        else s)"

definition processSetupMsg :: "wid \<Rightarrow> hid \<Rightarrow> 'v Waiter option \<Rightarrow> 'v World \<Rightarrow> 'v World" where
  "processSetupMsg w h waiter s = addEventListener w (OnMessage h waiter) s"

text \<open>\<^verbatim>\<open>createChannel\<close> (lines 21-79), called by a script of window \<open>w\<close>: the new handle
  is \<open>next_handle s\<close>.\<close>

definition createChannel :: "wid \<Rightarrow> string \<Rightarrow> 'v World \<Rightarrow> 'v World" where
  "createChannel w c s =
     processSetupMsg w (next_handle s) None
       (s\<lparr>handles := (handles s)(next_handle s :=
            \<lparr>h_window = w, h_channel = c, h_isSetup = False\<rparr>),
          next_handle := Suc (next_handle s)\<rparr>)"

text \<open>The default parameter \<^verbatim>\<open>windowObj: Window = window\<close> (lines 67, 167); an
  omitted argument is \<open>None\<close>.\<close>

definition target_window :: "wid \<Rightarrow> wid option \<Rightarrow> wid" where
  "target_window w windowObj = (case windowObj of None \<Rightarrow> w | Some t \<Rightarrow> t)"

text \<open>\<^verbatim>\<open>request\<close> with \<^verbatim>\<open>waitChildWindowSetup\<close> (lines 57-63, 67-74, 165-174). The new
  promise is \<open>next_promise s\<close>.\<close>

definition request :: "hid \<Rightarrow> 'v option \<Rightarrow> wid option \<Rightarrow> 'v World \<Rightarrow> 'v World" where
  "request h message windowObj s =
     (let w = h_window (handles s h); c = h_channel (handles s h);
          wt = \<lparr>wt_promise = next_promise s, wt_message = message,
                wt_windowObj = target_window w windowObj\<rparr>;
          s1 = s\<lparr>promises := (promises s)(next_promise s := Pending),
                 next_promise := Suc (next_promise s)\<rparr>
      in if h_isSetup (handles s1 h)
         then request_send w (responseChannel c) (requestChannel c) wt s1
         else processSetupMsg w h (Some wt) s1)"

text \<open>\<^verbatim>\<open>handle\<close> (lines 85-158).\<close>

definition handle :: "hid \<Rightarrow> ('v option \<Rightarrow> 'v Outcome) \<Rightarrow> 'v World \<Rightarrow> 'v World" where
  "handle h callback s =
     (let w = h_window (handles s h); c = h_channel (handles s h);
          setupMsg = \<lparr>success = True, channel = requestChannel c, isSetup = Some True,
                      data = None, error = None\<rparr>;
          s1 = postMessage w (w_parent (windows s w)) setupMsg SenderOrigin s
      in addEventListener w
           (HandleMessageHandler callback (requestChannel c) (responseChannel c)) s1)"

text \<open>\<^verbatim>\<open>messageHandler\<close> of \<^verbatim>\<open>handle\<close> (lines 103-154): the callback is invoked at once.
  When it returns a promise, the promise settles later; when the call raises, the
  exception leaves the listener (the host reports it) and nothing else happens.\<close>

definition handle_messageHandler ::
  "lid \<Rightarrow> wid \<Rightarrow> ('v option \<Rightarrow> 'v Outcome) \<Rightarrow> string \<Rightarrow> string \<Rightarrow>
   'v MessageEvent \<Rightarrow> 'v World \<Rightarrow> 'v World" where
  "handle_messageHandler l w callback requestCh responseCh e s =
     (if ev_origin e \<noteq> w_origin (windows s w) then s
      else
        let channelMsg = ev_data e in
        if channel channelMsg \<noteq> requestCh then s
        else if truthy (isSetup channelMsg) then s
        else
          let out = callback (data channelMsg);
              s1 = s\<lparr>invoked := invoked s @ [(l, data channelMsg)]\<rparr>
          in if returns_promise out
             then s1\<lparr>jobs := jobs s @
                    [\<lparr>j_outcome = out, j_source = ev_source e, j_origin = ev_origin e,
                      j_window = w, j_responseChannel = responseCh\<rparr>]\<rparr>
             else s1)"

text \<open>The envelopes \<^verbatim>\<open>msg\<close> and \<^verbatim>\<open>errMsg\<close> of lines 126-130 and 139-147;
  \<^verbatim>\<open>err.stack || ""\<close> is the empty string for an absent stack. For a rejection with
  \<^verbatim>\<open>null\<close> or \<^verbatim>\<open>undefined\<close> the \<^verbatim>\<open>catch\<close> reaction raises at \<^verbatim>\<open>err.message\<close> (line 144)
  before it has built an envelope: there is none.\<close>

definition response_envelope :: "string \<Rightarrow> 'v Outcome \<Rightarrow> 'v ChannelMsg option" where
  "response_envelope responseCh out =
     (case out of
        Fulfills res \<Rightarrow>
          Some \<lparr>success = True, channel = responseCh, isSetup = None, data = res,
                error = None\<rparr>
      | Rejects err \<Rightarrow>
          Some \<lparr>success = False, channel = responseCh, isSetup = None, data = None,
                error = Some \<lparr>msg = err_message err,
                              stack = (case err_stack err of None \<Rightarrow> [] | Some t \<Rightarrow> t)\<rparr>\<rparr>
      | RejectsNullish \<Rightarrow> None
      | Throws \<Rightarrow> None)"

text \<open>The reactions of lines 125-152, run when the callback's promise settles:
  \<^verbatim>\<open>event.source?.postMessage(msg, { targetOrigin: event.origin })\<close>. When the
  \<^verbatim>\<open>catch\<close> reaction raises, nothing is posted and the rejection stays unhandled.\<close>

definition reaction :: "'v Job \<Rightarrow> 'v World \<Rightarrow> 'v World" where
  "reaction j s =
     (case response_envelope (j_responseChannel j) (j_outcome j) of
        None \<Rightarrow> s
      | Some m \<Rightarrow>
          (case j_source j of
             None \<Rightarrow> s
           | Some src \<Rightarrow> postMessage (j_window j) src m (ExactOrigin (j_origin j)) s))"

text \<open>\<^verbatim>\<open>messageHandler\<close> of \<^verbatim>\<open>request\<close> (lines 177-202).\<close>

definition request_messageHandler ::
  "lid \<Rightarrow> wid \<Rightarrow> pid \<Rightarrow> string \<Rightarrow> 'v MessageEvent \<Rightarrow> 'v World \<Rightarrow> 'v World" where
  "request_messageHandler l w p responseCh e s =
     (if ev_origin e \<noteq> w_origin (windows s w) then s
      else
        let channelMsg = ev_data e in
        if channel channelMsg \<noteq> responseCh then s
        else
          removeEventListener l
            (if success channelMsg then resolve p (data channelMsg) s
             else reject p (error_text channelMsg) s))"

section \<open>The event loop\<close>

text \<open>
  The host runs one task at a time: a script that makes one call of the library, the
  delivery of one posted message, the settling of one promise returned by a callback
  (with its \<^verbatim>\<open>then\<close>/\<^verbatim>\<open>catch\<close> reaction), or the dispatch of an event that the
  environment built. The code after an \<^verbatim>\<open>await\<close> runs as a microtask of the task that
  resumed it, so it is part of that task.
\<close>

fun invoke :: "lid \<Rightarrow> wid \<Rightarrow> 'v Listener \<Rightarrow> 'v MessageEvent \<Rightarrow> 'v World \<Rightarrow> 'v World" where
  "invoke l w (OnMessage h waiter) e s = onMessage l w h waiter e s"
| "invoke l w (HandleMessageHandler cb qc rc) e s = handle_messageHandler l w cb qc rc e s"
| "invoke l w (RequestMessageHandler p rc) e s = request_messageHandler l w p rc e s"

text \<open>An event is dispatched to the listeners registered on the window when the
  dispatch starts, in registration order; one removed meanwhile is skipped.\<close>

fun dispatch_list ::
  "(lid \<times> wid \<times> 'v Listener) list \<Rightarrow> 'v MessageEvent \<Rightarrow> 'v World \<Rightarrow> 'v World" where
  "dispatch_list [] e s = s"
| "dispatch_list ((l, w, f) # ls) e s =
     dispatch_list ls e (if l \<in> fst ` set (listeners s) then invoke l w f e s else s)"

definition dispatch :: "wid \<Rightarrow> 'v MessageEvent \<Rightarrow> 'v World \<Rightarrow> 'v World" where
  "dispatch w e s = dispatch_list (filter (\<lambda>x. fst (snd x) = w) (listeners s)) e s"

definition origin_ok :: "TargetOrigin \<Rightarrow> string \<Rightarrow> string \<Rightarrow> bool" where
  "origin_ok t sender_origin target_origin =
     (case t of
        AnyOrigin \<Rightarrow> True
      | SenderOrigin \<Rightarrow> sender_origin = target_origin
      | ExactOrigin x \<Rightarrow> x = target_origin)"

definition event_of :: "'v World \<Rightarrow> 'v Posted \<Rightarrow> 'v MessageEvent" where
  "event_of s m =
     \<lparr>ev_origin = w_origin (windows s (p_sender m)), ev_source = Some (p_sender m),
      ev_data = p_msg m\<rparr>"

text \<open>The task of a posted message: it is dropped when the target's origin is not the
  one the sender asked for.\<close>

definition deliver :: "nat \<Rightarrow> 'v World \<Rightarrow> 'v World" where
  "deliver i s =
     (if i < length (queue s) then
        let m = queue s ! i;
            s1 = s\<lparr>queue := take i (queue s) @ drop (Suc i) (queue s)\<rparr>
        in if origin_ok (p_targetOrigin m) (w_origin (windows s (p_sender m)))
                (w_origin (windows s (p_target m)))
           then dispatch (p_target m) (event_of s m) s1
           else s1
      else s)"

definition settle :: "nat \<Rightarrow> 'v World \<Rightarrow> 'v World" where
  "settle i s =
     (if i < length (jobs s) then
        reaction (jobs s ! i) (s\<lparr>jobs := take i (jobs s) @ drop (Suc i) (jobs s)\<rparr>)
      else s)"

datatype 'v Action =
    CreateChannel wid string
  | Handle hid "'v option \<Rightarrow> 'v Outcome"
  | Request hid "'v option" "wid option"
  | Deliver nat
  | Settle nat
  | Inject wid "'v MessageEvent"

fun step :: "'v Action \<Rightarrow> 'v World \<Rightarrow> 'v World" where
  "step (CreateChannel w c) s = createChannel w c s"
| "step (Handle h cb) s = handle h cb s"
| "step (Request h q t) s = request h q t s"
| "step (Deliver i) s = deliver i s"
| "step (Settle i) s = settle i s"
| "step (Inject w e) s = dispatch w e s"

fun run :: "'v Action list \<Rightarrow> 'v World \<Rightarrow> 'v World" where
  "run [] s = s"
| "run (a # as) s = run as (step a s)"

section \<open>Example worlds\<close>

text \<open>A page (window 0) and frames embedded in it, all served from one origin.\<close>

definition same_origin_pair :: "wid \<Rightarrow> Window" where
  "same_origin_pair w = \<lparr>w_origin = ''https://app.example'', w_parent = 0, w_top = 0\<rparr>"

text \<open>Window 0 embeds window 1, which embeds every other window.\<close>

definition nested_frames :: "wid \<Rightarrow> Window" where
  "nested_frames w =
     \<lparr>w_origin = ''https://app.example'', w_parent = (if w \<le> 1 then 0 else 1), w_top = 0\<rparr>"

text \<open>Window 0 embeds a frame of another origin, window 1.\<close>

definition cross_origin_pair :: "wid \<Rightarrow> Window" where
  "cross_origin_pair w =
     \<lparr>w_origin = (if w = 0 then ''https://app.example'' else ''https://other.example''),
      w_parent = 0, w_top = 0\<rparr>"

definition echo :: "nat option \<Rightarrow> nat Outcome" where
  "echo q = Fulfills q"


text \<open>A responder alone on its page, and an envelope that claims another origin.\<close>

definition responder_ready :: "nat World" where
  "responder_ready = run [CreateChannel 0 ''/greeting'', Handle 0 echo] (init same_origin_pair)"

definition foreign_event :: "nat MessageEvent" where
  "foreign_event =
     \<lparr>ev_origin = ''https://other.example'', ev_source = Some 1,
      ev_data = \<lparr>success = True, channel = ''request://greeting'', isSetup = None,
                 data = Some 7, error = None\<rparr>\<rparr>"

definition setup_event :: "string \<Rightarrow> string \<Rightarrow> 'v MessageEvent" where
  "setup_event orig c =
     \<lparr>ev_origin = orig, ev_source = None,
      ev_data = \<lparr>success = True, channel = ''request:/'' @ c, isSetup = Some True,
                 data = None, error = None\<rparr>\<rparr>"

text \<open>A requester on the page sends to a responder in a frame of another origin.\<close>

definition cross_origin_sent :: "nat World" where
  "cross_origin_sent =
     run [CreateChannel 0 ''/greeting'', CreateChannel 1 ''/greeting'', Handle 1 echo,
          Inject 0 (setup_event ''https://app.example'' ''/greeting''),
          Request 0 (Some 7) (Some 1)]
       (init cross_origin_pair)"



text \<open>Two requests are in flight on one channel; the responder has answered the first.\<close>

definition two_pending :: "string \<Rightarrow> 'v option \<Rightarrow> 'v option \<Rightarrow> 'v World" where
  "two_pending c Q1 Q2 =
     run [CreateChannel 0 c, CreateChannel 1 c, Handle 1 Fulfills, Deliver 0,
          Request 0 Q1 (Some 1), Request 0 Q2 (Some 1), Deliver 0, Settle 0]
       (init same_origin_pair)"

text \<open>A requester in the frame (window 1) of a page, set up by its own nested frame,
  calls \<^verbatim>\<open>request\<close> without a target window.\<close>

definition framed_request :: "nat World" where
  "framed_request =
     run [CreateChannel 1 ''/greeting'', CreateChannel 2 ''/greeting'', Handle 1 echo,
          Deliver 0, Request 0 (Some 5) None]
       (init nested_frames)"


text \<open>A requester alone on its page that has observed a setup announcement.\<close>

definition requester_ready :: "nat World" where
  "requester_ready =
     run [CreateChannel 0 ''/greeting'',
          Inject 0 (setup_event ''https://app.example'' ''/greeting'')]
       (init same_origin_pair)"

text \<open>An error envelope without any error detail.\<close>

definition bare_error :: "'v MessageEvent" where
  "bare_error =
     \<lparr>ev_origin = ''https://app.example'', ev_source = Some 1,
      ev_data = \<lparr>success = False, channel = ''response://greeting'', isSetup = None,
                 data = None, error = None\<rparr>\<rparr>"




section \<open>Notions the properties are stated with\<close>

text \<open>The event \<open>e\<close>, dispatched to window \<open>w\<close>, is a same-origin setup announcement
  on the request topic of the channel handle \<open>h\<close>.\<close>

definition setup_announcement :: "'v World \<Rightarrow> hid \<Rightarrow> wid \<Rightarrow> 'v MessageEvent \<Rightarrow> bool" where
  "setup_announcement s h w e \<longleftrightarrow>
     ev_origin e = w_origin (windows s w) \<and>
     channel (ev_data e) = requestChannel (h_channel (handles s h)) \<and>
     truthy (isSetup (ev_data e))"

text \<open>The event, if any, that an action of the event loop dispatches, and the window
  it is dispatched to.\<close>

fun delivered :: "'v Action \<Rightarrow> 'v World \<Rightarrow> (wid \<times> 'v MessageEvent) option" where
  "delivered (Inject w e) s = Some (w, e)"
| "delivered (Deliver i) s =
     (if i < length (queue s) \<and>
         origin_ok (p_targetOrigin (queue s ! i))
           (w_origin (windows s (p_sender (queue s ! i))))
           (w_origin (windows s (p_target (queue s ! i))))
      then Some (p_target (queue s ! i), event_of s (queue s ! i))
      else None)"
| "delivered _ s = None"

text \<open>An error envelope without a usable message: no error detail, no \<^verbatim>\<open>msg\<close> in
  it, or an empty one.\<close>

definition lacks_message :: "'v ChannelMsg \<Rightarrow> bool" where
  "lacks_message m =
     (case error m of
        None \<Rightarrow> True
      | Some d \<Rightarrow> (case msg d of None \<Rightarrow> True | Some t \<Rightarrow> t = []))"

section \<open>Requests that wait for the setup\<close>

text \<open>The setup listeners of suspended \<^verbatim>\<open>request\<close> calls, the listeners the calls
  register once they go on, and the envelope each of them posts, for a list of
  calls given by message and optional target window.\<close>

fun waiting ::
  "lid \<Rightarrow> pid \<Rightarrow> wid \<Rightarrow> hid \<Rightarrow> ('v option \<times> wid option) list \<Rightarrow> (lid \<times> wid \<times> 'v Listener) list" where
  "waiting l p w h [] = []"
| "waiting l p w h ((q, t) # rs) =
     (l, w, OnMessage h (Some \<lparr>wt_promise = p, wt_message = q,
        wt_windowObj = target_window w t\<rparr>)) # waiting (Suc l) (Suc p) w h rs"

fun subscribed ::
  "lid \<Rightarrow> pid \<Rightarrow> wid \<Rightarrow> string \<Rightarrow> ('v option \<times> wid option) list \<Rightarrow> (lid \<times> wid \<times> 'v Listener) list" where
  "subscribed l p w rc [] = []"
| "subscribed l p w rc (r # rs) =
     (l, w, RequestMessageHandler p rc) # subscribed (Suc l) (Suc p) w rc rs"

definition envelope :: "wid \<Rightarrow> string \<Rightarrow> 'v option \<times> wid option \<Rightarrow> 'v Posted" where
  "envelope w c r =
     \<lparr>p_target = target_window w (snd r), p_targetOrigin = AnyOrigin, p_sender = w,
      p_msg = \<lparr>success = True, channel = requestChannel c, isSetup = None, data = fst r,
               error = None\<rparr>\<rparr>"

text \<open>A fresh page on which a channel is created and \<open>reqs\<close> requests are made before
  any setup announcement, and the state this leads to.\<close>

definition pending_requests ::
  "(wid \<Rightarrow> Window) \<Rightarrow> wid \<Rightarrow> string \<Rightarrow> ('v option \<times> wid option) list \<Rightarrow> 'v World" where
  "pending_requests ws w c reqs =
     run (CreateChannel w c # map (\<lambda>r. Request 0 (fst r) (snd r)) reqs) (init ws)"

definition waiting_state ::
  "(wid \<Rightarrow> Window) \<Rightarrow> wid \<Rightarrow> string \<Rightarrow> ('v option \<times> wid option) list \<Rightarrow> 'v World" where
  "waiting_state ws w c reqs =
     \<lparr>windows = ws,
      handles = (\<lambda>_. \<lparr>h_window = 0, h_channel = [], h_isSetup = False\<rparr>)
        (0 := \<lparr>h_window = w, h_channel = c, h_isSetup = False\<rparr>),
      next_handle = 1,
      listeners = (0, w, OnMessage 0 None) # waiting (Suc 0) 0 w 0 reqs,
      next_listener = Suc (length reqs),
      promises = (\<lambda>_. Pending), next_promise = length reqs,
      queue = [], jobs = [], invoked = []\<rparr>"

section \<open>A responder that serves requests\<close>











section \<open>Runs of a round trip\<close>








section \<open>What a run of the library's own messages can hold\<close>





section \<open>The phases of a round trip\<close>

























section \<open>Evaluating runs\<close>

lemmas protocol_defs =
  init_def createChannel_def processSetupMsg_def addEventListener_def handle_def
  postMessage_def deliver_def origin_ok_def event_of_def dispatch_def onMessage_def
  requestChannel_def responseChannel_def truthy_def removeEventListener_def request_def
  request_send_def handle_messageHandler_def settle_def reaction_def
  request_messageHandler_def resolve_def reject_def error_text_def target_window_def
  response_envelope_def Let_def

section \<open>The origin guard\<close>

lemma invoke_foreign_origin:
  "ev_origin e \<noteq> w_origin (windows s w) \<Longrightarrow> invoke l w f e s = s"
  by (cases f)
     (simp_all add: onMessage_def handle_messageHandler_def request_messageHandler_def)

lemma dispatch_list_foreign_origin:
  "\<forall>x\<in>set ls. fst (snd x) = w \<Longrightarrow> ev_origin e \<noteq> w_origin (windows s w) \<Longrightarrow>
   dispatch_list ls e s = s"
proof (induction ls arbitrary: s)
  case Nil
  then show ?case by simp
next
  case (Cons x ls)
  obtain l w' f where x: "x = (l, w', f)" by (cases x)
  with Cons.prems have w': "w' = w" by simp
  from Cons.prems(2) have "invoke l w f e s = s" by (rule invoke_foreign_origin)
  with Cons x w' show ?case by simp
qed

text \<open>
  C3. An event whose declared sender origin differs from the origin of the window it
  is dispatched to leaves the whole state as it was: no callback is invoked (the
  invocation log and the pending callback promises are unchanged) and no promise of a
  \<^verbatim>\<open>request\<close> call is settled. A posted message from a sender of another origin only
  leaves the queue.
\<close>

theorem foreign_origin_ignored:
  "(ev_origin e \<noteq> w_origin (windows s w) \<longrightarrow> dispatch w e s = s) \<and>
   (i < length (queue s) \<and>
    w_origin (windows s (p_sender (queue s ! i))) \<noteq>
      w_origin (windows s (p_target (queue s ! i))) \<longrightarrow>
    deliver i s = s\<lparr>queue := take i (queue s) @ drop (Suc i) (queue s)\<rparr>)"
proof (intro conjI impI)
  assume "ev_origin e \<noteq> w_origin (windows s w)"
  then show "dispatch w e s = s"
    unfolding dispatch_def by (intro dispatch_list_foreign_origin) auto
next
  let ?m = "queue s ! i"
  let ?s1 = "s\<lparr>queue := take i (queue s) @ drop (Suc i) (queue s)\<rparr>"
  assume a: "i < length (queue s) \<and>
    w_origin (windows s (p_sender ?m)) \<noteq> w_origin (windows s (p_target ?m))"
  then have "ev_origin (event_of s ?m) \<noteq> w_origin (windows ?s1 (p_target ?m))"
    by (simp add: event_of_def)
  then have "dispatch (p_target ?m) (event_of s ?m) ?s1 = ?s1"
    unfolding dispatch_def by (intro dispatch_list_foreign_origin) auto
  with a show "deliver i s = ?s1"
    by (simp add: deliver_def Let_def)
qed

theorem foreign_origin_ignored_witness:
  "ev_origin (foreign_event :: nat MessageEvent) \<noteq> w_origin (windows responder_ready 0) \<and>
   dispatch 0 foreign_event responder_ready = responder_ready \<and>
   invoked (dispatch 0 foreign_event responder_ready) = [] \<and>
   w_origin (windows cross_origin_sent (p_sender (queue cross_origin_sent ! 1))) \<noteq>
     w_origin (windows cross_origin_sent (p_target (queue cross_origin_sent ! 1))) \<and>
   deliver 1 cross_origin_sent =
     cross_origin_sent\<lparr>queue := take 1 (queue cross_origin_sent)\<rparr> \<and>
   invoked (deliver 1 cross_origin_sent) = []"
proof -
  have h1: "ev_origin (foreign_event :: nat MessageEvent) \<noteq>
      w_origin (windows responder_ready 0)"
    by (simp add: foreign_event_def responder_ready_def same_origin_pair_def protocol_defs)
  with foreign_origin_ignored [of foreign_event responder_ready 0]
  have 1: "dispatch 0 foreign_event responder_ready = responder_ready" by blast
  have q: "queue cross_origin_sent =
     [\<lparr>p_target = 0, p_targetOrigin = SenderOrigin, p_sender = 1,
       p_msg = \<lparr>success = True, channel = ''request://greeting'', isSetup = Some True,
                data = None, error = None\<rparr>\<rparr>,
      \<lparr>p_target = 1, p_targetOrigin = AnyOrigin, p_sender = 0,
       p_msg = \<lparr>success = True, channel = ''request://greeting'', isSetup = None,
                data = Some 7, error = None\<rparr>\<rparr>]"
    by (simp add: cross_origin_sent_def cross_origin_pair_def setup_event_def protocol_defs)
  have w: "windows cross_origin_sent = cross_origin_pair"
    by (simp add: cross_origin_sent_def protocol_defs)
  have h2: "w_origin (windows cross_origin_sent (p_sender (queue cross_origin_sent ! 1))) \<noteq>
     w_origin (windows cross_origin_sent (p_target (queue cross_origin_sent ! 1)))"
    by (simp add: q w cross_origin_pair_def)
  with foreign_origin_ignored [of _ cross_origin_sent _ 1]
  have 2: "deliver 1 cross_origin_sent =
     cross_origin_sent\<lparr>queue := take 1 (queue cross_origin_sent)\<rparr>"
    by (simp add: q)
  have 3: "invoked responder_ready = []"
    by (simp add: responder_ready_def protocol_defs)
  have 4: "invoked cross_origin_sent = []"
    by (simp add: cross_origin_sent_def cross_origin_pair_def setup_event_def protocol_defs)
  from h1 1 h2 2 3 4 show ?thesis by simp
qed

section \<open>Two requests in flight\<close>

text \<open>
  C9. There is an execution in which two requests on one channel are pending together
  and a single response, the one the responder produced for the first request (the
  callback has been invoked with \<open>Q1\<close> only), completes the listener of the second
  request with the first one's answer: the listeners match on the topic alone.
\<close>

theorem response_consumed_by_other_request:
  "promises (two_pending c Q1 Q2) 0 = Pending \<and>
   promises (two_pending c Q1 Q2) 1 = Pending \<and>
   invoked (two_pending c Q1 Q2) = [(2, Q1)] \<and>
   queue (two_pending c Q1 Q2) =
     [\<lparr>p_target = 1, p_targetOrigin = AnyOrigin, p_sender = 0,
       p_msg = \<lparr>success = True, channel = requestChannel c, isSetup = None, data = Q2,
                error = None\<rparr>\<rparr>,
      \<lparr>p_target = 0, p_targetOrigin = ExactOrigin ''https://app.example'', p_sender = 1,
       p_msg = \<lparr>success = True, channel = responseChannel c, isSetup = None, data = Q1,
                error = None\<rparr>\<rparr>] \<and>
   listeners (two_pending c Q1 Q2) =
     [(1, 1, OnMessage 1 None),
      (2, 1, HandleMessageHandler Fulfills (requestChannel c) (responseChannel c)),
      (3, 0, RequestMessageHandler 0 (responseChannel c)),
      (4, 0, RequestMessageHandler 1 (responseChannel c))] \<and>
   promises (deliver 1 (two_pending c Q1 Q2)) 1 = Resolved Q1 \<and>
   map fst (listeners (deliver 1 (two_pending c Q1 Q2))) = [1, 2] \<and>
   invoked (deliver 1 (two_pending c Q1 Q2)) = [(2, Q1)]"
  by (simp add: two_pending_def same_origin_pair_def protocol_defs)

section \<open>The default target\<close>

text \<open>
  C7, as the claim states it, fails for a requester that runs in a frame: the
  envelope is posted to the frame's own window (window 1), not to its top-level
  context (window 0).
\<close>

theorem default_target_counterexample:
  "map p_target (queue framed_request) = [1] \<and>
   h_window (handles framed_request 0) = 1 \<and>
   w_top (windows framed_request 1) = 0"
  by (simp add: framed_request_def nested_frames_def echo_def protocol_defs)

text \<open>
  C7, amended. A \<^verbatim>\<open>request\<close> call that omits the target behaves as one that names
  the requester's own window (the \<^verbatim>\<open>window\<close> of the script that created the channel),
  and once the setup has been observed it posts its request envelope to that window;
  this is the top-level context when the requester's window is itself top-level.
\<close>

theorem default_target_is_own_window:
  "request h q None s = request h q (Some (h_window (handles s h))) s \<and>
   (h_isSetup (handles s h) \<longrightarrow>
     queue (request h q None s) = queue s @
       [\<lparr>p_target = h_window (handles s h), p_targetOrigin = AnyOrigin,
         p_sender = h_window (handles s h),
         p_msg = \<lparr>success = True, channel = requestChannel (h_channel (handles s h)),
                  isSetup = None, data = q, error = None\<rparr>\<rparr>]) \<and>
   (h_isSetup (handles s h) \<and>
    w_top (windows s (h_window (handles s h))) = h_window (handles s h) \<longrightarrow>
     map p_target (queue (request h q None s)) =
       map p_target (queue s) @ [w_top (windows s (h_window (handles s h)))])"
  by (simp add: request_def request_send_def postMessage_def addEventListener_def
      target_window_def Let_def)

theorem default_target_is_own_window_witness:
  "h_isSetup (handles requester_ready 0) \<and>
   w_top (windows requester_ready (h_window (handles requester_ready 0))) =
     h_window (handles requester_ready 0) \<and>
   map p_target (queue (request 0 (Some 5) None requester_ready)) = [0] \<and>
   w_top (windows requester_ready 0) = 0"
proof -
  have f: "h_isSetup (handles requester_ready 0)"
    by (simp add: requester_ready_def setup_event_def same_origin_pair_def protocol_defs)
  have t: "w_top (windows requester_ready (h_window (handles requester_ready 0))) =
     h_window (handles requester_ready 0)"
    by (simp add: requester_ready_def setup_event_def same_origin_pair_def protocol_defs)
  have q: "queue requester_ready = []"
    by (simp add: requester_ready_def setup_event_def same_origin_pair_def protocol_defs)
  have w: "w_top (windows requester_ready 0) = 0"
    by (simp add: requester_ready_def setup_event_def same_origin_pair_def protocol_defs)
  from default_target_is_own_window [of 0 "Some 5" requester_ready] f t
  have "map p_target (queue (request 0 (Some 5) None requester_ready)) =
     map p_target (queue requester_ready) @
       [w_top (windows requester_ready (h_window (handles requester_ready 0)))]"
    by blast
  with f t q w show ?thesis
    by (simp add: requester_ready_def setup_event_def same_origin_pair_def protocol_defs)
qed

section \<open>The fallback message\<close>

text \<open>
  C8. When the listener of a pending \<^verbatim>\<open>request\<close> call receives a same-origin error
  envelope (response topic, \<open>success\<close> false) whose error detail lacks a message, it
  rejects the call with exactly \<^verbatim>\<open>"Unknown error"\<close>. This holds for the listener in
  any state, and for the dispatch of the event to a requester that has observed the
  setup and made one request.
\<close>

theorem unknown_error_fallback:
  "(promises s p = Pending \<and> ev_origin e = w_origin (windows s w) \<and>
    channel (ev_data e) = rc \<and> \<not> success (ev_data e) \<and> lacks_message (ev_data e) \<longrightarrow>
    promises (request_messageHandler l w p rc e s) p = Rejected ''Unknown error'') \<and>
   (ev_origin e = w_origin (ws w) \<and> channel (ev_data e) = responseChannel c \<and>
    \<not> success (ev_data e) \<and> lacks_message (ev_data e) \<longrightarrow>
    promises (dispatch w e
      (run [CreateChannel w c, Inject w (setup_event (w_origin (ws w)) c), Request 0 Q t]
        (init ws))) 0 = Rejected ''Unknown error'')"
proof (intro conjI impI)
  assume "promises s p = Pending \<and> ev_origin e = w_origin (windows s w) \<and>
    channel (ev_data e) = rc \<and> \<not> success (ev_data e) \<and> lacks_message (ev_data e)"
  then show "promises (request_messageHandler l w p rc e s) p = Rejected ''Unknown error''"
    by (simp add: request_messageHandler_def reject_def removeEventListener_def
        error_text_def lacks_message_def Let_def split: option.splits)
next
  assume "ev_origin e = w_origin (ws w) \<and> channel (ev_data e) = responseChannel c \<and>
    \<not> success (ev_data e) \<and> lacks_message (ev_data e)"
  then show "promises (dispatch w e
      (run [CreateChannel w c, Inject w (setup_event (w_origin (ws w)) c), Request 0 Q t]
        (init ws))) 0 = Rejected ''Unknown error''"
    by (simp add: setup_event_def lacks_message_def protocol_defs split: option.splits)
qed

theorem unknown_error_fallback_witness:
  "promises (request 0 (Some 5) None requester_ready) 0 = Pending \<and>
   ev_origin (bare_error :: nat MessageEvent) =
     w_origin (windows (request 0 (Some 5) None requester_ready) 0) \<and>
   channel (ev_data (bare_error :: nat MessageEvent)) = ''response://greeting'' \<and>
   \<not> success (ev_data (bare_error :: nat MessageEvent)) \<and>
   lacks_message (ev_data (bare_error :: nat MessageEvent)) \<and>
   promises (request_messageHandler 1 0 0 ''response://greeting'' bare_error
     (request 0 (Some 5) None requester_ready)) 0 = Rejected ''Unknown error'' \<and>
   promises (dispatch 0 bare_error
     (run [CreateChannel 0 ''/greeting'',
           Inject 0 (setup_event (w_origin (same_origin_pair 0)) ''/greeting''),
           Request 0 (Some (5::nat)) None]
       (init same_origin_pair))) 0 = Rejected ''Unknown error''"
proof -
  let ?e = "bare_error :: nat MessageEvent"
  let ?s = "request 0 (Some 5) None requester_ready"
  have a: "promises ?s 0 = Pending"
    by (simp add: requester_ready_def setup_event_def same_origin_pair_def protocol_defs)
  have b: "ev_origin ?e = w_origin (windows ?s 0)"
    by (simp add: bare_error_def requester_ready_def setup_event_def same_origin_pair_def
        protocol_defs)
  have b': "ev_origin ?e = w_origin (same_origin_pair 0)"
    by (simp add: bare_error_def same_origin_pair_def)
  have c: "channel (ev_data ?e) = ''response://greeting''"
    by (simp add: bare_error_def)
  have c': "channel (ev_data ?e) = responseChannel ''/greeting''"
    by (simp add: bare_error_def responseChannel_def)
  have d: "\<not> success (ev_data ?e)"
    by (simp add: bare_error_def)
  have l: "lacks_message (ev_data ?e)"
    by (simp add: bare_error_def lacks_message_def)
  from unknown_error_fallback [of ?s 0 ?e 0 "''response://greeting''" 1] a b c d l
  have 1: "promises (request_messageHandler 1 0 0 ''response://greeting'' ?e ?s) 0 =
     Rejected ''Unknown error''"
    by blast
  from unknown_error_fallback [of _ _ ?e 0 _ _ same_origin_pair "''/greeting''" "Some 5" None]
    b' c' d l
  have 2: "promises (dispatch 0 ?e
     (run [CreateChannel 0 ''/greeting'',
           Inject 0 (setup_event (w_origin (same_origin_pair 0)) ''/greeting''),
           Request 0 (Some 5) None]
       (init same_origin_pair))) 0 = Rejected ''Unknown error''"
    by blast
  from a b c d l 1 2 show ?thesis by blast
qed

section \<open>The setup flag\<close>

lemma request_send_handles [simp]:
  "handles (request_send w rc qc wt s) = handles s"
  by (simp add: request_send_def postMessage_def addEventListener_def)

lemma request_send_windows [simp]:
  "windows (request_send w rc qc wt s) = windows s"
  by (simp add: request_send_def postMessage_def addEventListener_def)

lemma request_send_next_handle [simp]:
  "next_handle (request_send w rc qc wt s) = next_handle s"
  by (simp add: request_send_def postMessage_def addEventListener_def)

lemma invoke_windows: "windows (invoke l w f e s) = windows s"
  by (cases f)
     (simp_all add: onMessage_def handle_messageHandler_def request_messageHandler_def
        removeEventListener_def resolve_def reject_def Let_def
        split: PromiseState.splits option.splits)

lemma invoke_next_handle: "next_handle (invoke l w f e s) = next_handle s"
  by (cases f)
     (simp_all add: onMessage_def handle_messageHandler_def request_messageHandler_def
        removeEventListener_def resolve_def reject_def Let_def
        split: PromiseState.splits option.splits)

lemma invoke_h_channel: "h_channel (handles (invoke l w f e s) h) = h_channel (handles s h)"
  by (cases f)
     (simp_all add: onMessage_def handle_messageHandler_def request_messageHandler_def
        removeEventListener_def resolve_def reject_def Let_def
        split: PromiseState.splits option.splits)

lemma invoke_flag_mono:
  "h_isSetup (handles s h) \<Longrightarrow> h_isSetup (handles (invoke l w f e s) h)"
  by (cases f)
     (simp_all add: onMessage_def handle_messageHandler_def request_messageHandler_def
        removeEventListener_def resolve_def reject_def Let_def
        split: PromiseState.splits option.splits)

lemma invoke_flag_cause:
  "\<not> h_isSetup (handles s h) \<Longrightarrow> h_isSetup (handles (invoke l w f e s) h) \<Longrightarrow>
   setup_announcement s h w e"
  by (cases f)
     (auto simp add: onMessage_def handle_messageHandler_def request_messageHandler_def
        removeEventListener_def resolve_def reject_def Let_def setup_announcement_def
        split: PromiseState.splits option.splits if_splits)

lemma setup_announcement_invoke:
  "setup_announcement (invoke l w' f e' s) h w e = setup_announcement s h w e"
  by (simp add: setup_announcement_def invoke_windows invoke_h_channel)

lemma dispatch_list_windows: "windows (dispatch_list ls e s) = windows s"
  by (induction ls arbitrary: s) (auto simp: invoke_windows)

lemma dispatch_list_next_handle: "next_handle (dispatch_list ls e s) = next_handle s"
  by (induction ls arbitrary: s) (auto simp: invoke_next_handle)

lemma dispatch_list_h_channel:
  "h_channel (handles (dispatch_list ls e s) h) = h_channel (handles s h)"
  by (induction ls arbitrary: s) (auto simp: invoke_h_channel)

lemma dispatch_list_flag_mono:
  "h_isSetup (handles s h) \<Longrightarrow> h_isSetup (handles (dispatch_list ls e s) h)"
  by (induction ls arbitrary: s) (auto simp: invoke_flag_mono)

lemma dispatch_list_flag_cause:
  "\<forall>x\<in>set ls. fst (snd x) = w \<Longrightarrow> \<not> h_isSetup (handles s h) \<Longrightarrow>
   h_isSetup (handles (dispatch_list ls e s) h) \<Longrightarrow> setup_announcement s h w e"
proof (induction ls arbitrary: s)
  case Nil
  then show ?case by simp
next
  case (Cons x ls)
  obtain l w' f where x: "x = (l, w', f)" by (cases x)
  with Cons.prems(1) have w': "w' = w" by simp
  let ?s' = "if l \<in> fst ` set (listeners s) then invoke l w f e s else s"
  from Cons.prems(3) x w' have after: "h_isSetup (handles (dispatch_list ls e ?s') h)"
    by simp
  show ?case
  proof (cases "h_isSetup (handles ?s' h)")
    case True
    with Cons.prems(2) have "h_isSetup (handles (invoke l w f e s) h)"
      by (simp split: if_splits)
    with Cons.prems(2) show ?thesis by (rule invoke_flag_cause)
  next
    case False
    from Cons.prems(1) have "\<forall>x\<in>set ls. fst (snd x) = w" by simp
    from Cons.IH [OF this False after] show ?thesis
      by (simp add: setup_announcement_invoke split: if_splits)
  qed
qed

lemma dispatch_flag_cause:
  assumes "\<not> h_isSetup (handles s h)" and "h_isSetup (handles (dispatch w e s) h)"
  shows "setup_announcement s h w e"
proof -
  let ?ls = "filter (\<lambda>x. fst (snd x) = w) (listeners s)"
  have "\<forall>x\<in>set ?ls. fst (snd x) = w" by simp
  moreover from assms(2) have "h_isSetup (handles (dispatch_list ?ls e s) h)"
    by (simp add: dispatch_def)
  ultimately show ?thesis using assms(1) by (intro dispatch_list_flag_cause [of ?ls w s h e])
qed

lemma step_flag_mono:
  "h < next_handle s \<Longrightarrow> h_isSetup (handles s h) \<Longrightarrow> h_isSetup (handles (step a s) h)"
  by (cases a)
     (simp_all add: createChannel_def processSetupMsg_def addEventListener_def handle_def
        postMessage_def request_def deliver_def settle_def reaction_def dispatch_def
        dispatch_list_flag_mono Let_def split: option.splits)

lemma step_next_handle: "next_handle s \<le> next_handle (step a s)"
  by (cases a)
     (simp_all add: createChannel_def processSetupMsg_def addEventListener_def handle_def
        postMessage_def request_def deliver_def settle_def reaction_def dispatch_def
        dispatch_list_next_handle Let_def split: option.splits)

lemma run_flag_mono:
  "h < next_handle s \<Longrightarrow> h_isSetup (handles s h) \<Longrightarrow> h_isSetup (handles (run as s) h)"
proof (induction as arbitrary: s)
  case Nil
  then show ?case by simp
next
  case (Cons a as)
  have "h < next_handle (step a s)"
    using Cons.prems(1) step_next_handle [of s a] by simp
  moreover have "h_isSetup (handles (step a s) h)"
    using Cons.prems by (rule step_flag_mono)
  ultimately show ?case using Cons.IH by simp
qed

lemma step_flag_cause:
  assumes "h < next_handle s" and "\<not> h_isSetup (handles s h)"
    and "h_isSetup (handles (step a s) h)"
  shows "\<exists>w e. delivered a s = Some (w, e) \<and> setup_announcement s h w e"
proof (cases a)
  case (CreateChannel w c)
  with assms show ?thesis
    by (simp add: createChannel_def processSetupMsg_def addEventListener_def)
next
  case (Handle h' cb)
  with assms show ?thesis
    by (simp add: handle_def postMessage_def addEventListener_def Let_def)
next
  case (Request h' q t)
  with assms show ?thesis
    by (simp add: request_def processSetupMsg_def addEventListener_def Let_def
        split: if_splits)
next
  case (Deliver i)
  let ?m = "queue s ! i"
  let ?s1 = "s\<lparr>queue := take i (queue s) @ drop (Suc i) (queue s)\<rparr>"
  from assms Deliver have d: "delivered a s = Some (p_target ?m, event_of s ?m)"
    and after: "h_isSetup (handles (dispatch (p_target ?m) (event_of s ?m) ?s1) h)"
    by (auto simp add: deliver_def Let_def split: if_splits)
  have "setup_announcement ?s1 h (p_target ?m) (event_of s ?m)"
    using assms(2) after by (intro dispatch_flag_cause) simp_all
  then have "setup_announcement s h (p_target ?m) (event_of s ?m)"
    by (simp add: setup_announcement_def)
  with d show ?thesis by blast
next
  case (Settle i)
  with assms show ?thesis
    by (simp add: settle_def reaction_def postMessage_def Let_def split: option.splits if_splits)
next
  case (Inject w e)
  with assms have "setup_announcement s h w e"
    by (intro dispatch_flag_cause) simp_all
  with Inject show ?thesis by simp
qed

lemma request_after_setup:
  "h_isSetup (handles s h) \<Longrightarrow>
   request h q t s =
     s\<lparr>listeners := listeners s @
          [(next_listener s, h_window (handles s h),
            RequestMessageHandler (next_promise s) (responseChannel (h_channel (handles s h))))],
       next_listener := Suc (next_listener s),
       promises := (promises s)(next_promise s := Pending),
       next_promise := Suc (next_promise s),
       queue := queue s @
          [\<lparr>p_target = target_window (h_window (handles s h)) t, p_targetOrigin = AnyOrigin,
            p_sender = h_window (handles s h),
            p_msg = \<lparr>success = True, channel = requestChannel (h_channel (handles s h)),
                     isSetup = None, data = q, error = None\<rparr>\<rparr>]\<rparr>"
  by (simp add: request_def request_send_def postMessage_def addEventListener_def Let_def)

text \<open>
  C4. The flag of a new channel handle is false. Whenever an action of the event loop
  turns the flag of an existing handle from false to true, the action dispatches an
  event that is a same-origin setup announcement on the handle's request topic. A flag
  that is true stays true along every run. A \<^verbatim>\<open>request\<close> made when the flag is true goes
  on at once: it subscribes its own listener and posts its envelope, and registers no
  setup listener.
\<close>

theorem setup_flag_lifecycle:
  "\<not> h_isSetup (handles (createChannel w c s) (next_handle s)) \<and>
   (h < next_handle s \<and> \<not> h_isSetup (handles s h) \<and> h_isSetup (handles (step a s) h) \<longrightarrow>
      (\<exists>w' e. delivered a s = Some (w', e) \<and> setup_announcement s h w' e)) \<and>
   (h < next_handle s \<and> h_isSetup (handles s h) \<longrightarrow> h_isSetup (handles (run as s) h)) \<and>
   (h_isSetup (handles s h) \<longrightarrow>
      listeners (request h q t s) = listeners s @
        [(next_listener s, h_window (handles s h),
          RequestMessageHandler (next_promise s) (responseChannel (h_channel (handles s h))))] \<and>
      queue (request h q t s) = queue s @
        [\<lparr>p_target = target_window (h_window (handles s h)) t, p_targetOrigin = AnyOrigin,
          p_sender = h_window (handles s h),
          p_msg = \<lparr>success = True, channel = requestChannel (h_channel (handles s h)),
                   isSetup = None, data = q, error = None\<rparr>\<rparr>])"
proof (intro conjI impI)
  show "\<not> h_isSetup (handles (createChannel w c s) (next_handle s))"
    by (simp add: createChannel_def processSetupMsg_def addEventListener_def)
next
  assume "h < next_handle s \<and> \<not> h_isSetup (handles s h) \<and> h_isSetup (handles (step a s) h)"
  then show "\<exists>w' e. delivered a s = Some (w', e) \<and> setup_announcement s h w' e"
    by (intro step_flag_cause) simp_all
next
  assume "h < next_handle s \<and> h_isSetup (handles s h)"
  then show "h_isSetup (handles (run as s) h)"
    by (intro run_flag_mono) simp_all
next
  assume f: "h_isSetup (handles s h)"
  show "listeners (request h q t s) = listeners s @
        [(next_listener s, h_window (handles s h),
          RequestMessageHandler (next_promise s) (responseChannel (h_channel (handles s h))))]"
    by (simp add: request_after_setup [OF f])
  show "queue (request h q t s) = queue s @
        [\<lparr>p_target = target_window (h_window (handles s h)) t, p_targetOrigin = AnyOrigin,
          p_sender = h_window (handles s h),
          p_msg = \<lparr>success = True, channel = requestChannel (h_channel (handles s h)),
                   isSetup = None, data = q, error = None\<rparr>\<rparr>]"
    by (simp add: request_after_setup [OF f])
qed

theorem setup_flag_lifecycle_witness:
  "0 < next_handle responder_ready \<and> \<not> h_isSetup (handles responder_ready 0) \<and>
   h_isSetup (handles (step (Deliver 0) responder_ready) 0) \<and>
   (\<exists>w e. delivered (Deliver 0) responder_ready = Some (w, e) \<and>
      setup_announcement responder_ready 0 w e) \<and>
   0 < next_handle requester_ready \<and> h_isSetup (handles requester_ready 0) \<and>
   h_isSetup (handles (run [Request 0 (Some 5) None, Deliver 0, Inject 0 foreign_event]
     requester_ready) 0) \<and>
   map p_target (queue (request 0 (Some 5) (Some 1) requester_ready)) = [1]"
proof -
  have a: "0 < next_handle responder_ready \<and> \<not> h_isSetup (handles responder_ready 0)"
    by (simp add: responder_ready_def protocol_defs)
  have b: "h_isSetup (handles (step (Deliver 0) responder_ready) 0)"
    by (simp add: responder_ready_def same_origin_pair_def protocol_defs)
  have c: "0 < next_handle requester_ready \<and> h_isSetup (handles requester_ready 0)"
    by (simp add: requester_ready_def setup_event_def same_origin_pair_def protocol_defs)
  have q: "queue requester_ready = []"
    by (simp add: requester_ready_def setup_event_def same_origin_pair_def protocol_defs)
  from setup_flag_lifecycle [of _ _ responder_ready 0 "Deliver 0"] a b
  have 1: "\<exists>w e. delivered (Deliver 0) responder_ready = Some (w, e) \<and>
      setup_announcement responder_ready 0 w e"
    by blast
  from setup_flag_lifecycle [of _ _ requester_ready 0 _
      "[Request 0 (Some 5) None, Deliver 0, Inject 0 foreign_event]" "Some 5" "Some 1"] c
  have 2: "h_isSetup (handles (run [Request 0 (Some 5) None, Deliver 0, Inject 0 foreign_event]
     requester_ready) 0)"
    and 3: "queue (request 0 (Some 5) (Some 1) requester_ready) = queue requester_ready @
        [\<lparr>p_target = target_window (h_window (handles requester_ready 0)) (Some 1),
          p_targetOrigin = AnyOrigin, p_sender = h_window (handles requester_ready 0),
          p_msg = \<lparr>success = True,
                   channel = requestChannel (h_channel (handles requester_ready 0)),
                   isSetup = None, data = Some 5, error = None\<rparr>\<rparr>]"
    by blast+
  from 3 have 4: "map p_target (queue (request 0 (Some 5) (Some 1) requester_ready)) = [1]"
    by (simp add: q target_window_def)
  from a b c 1 2 4 show ?thesis by simp
qed

section \<open>Requests made before the setup\<close>

lemma request_waits:
  "\<not> h_isSetup (handles s h) \<Longrightarrow>
   request h q t s =
     s\<lparr>listeners := listeners s @
          [(next_listener s, h_window (handles s h),
            OnMessage h (Some \<lparr>wt_promise = next_promise s, wt_message = q,
              wt_windowObj = target_window (h_window (handles s h)) t\<rparr>))],
       next_listener := Suc (next_listener s),
       promises := (promises s)(next_promise s := Pending),
       next_promise := Suc (next_promise s)\<rparr>"
  by (simp add: request_def processSetupMsg_def addEventListener_def target_window_def Let_def)

lemma requests_wait:
  "\<not> h_isSetup (handles s h) \<Longrightarrow>
   run (map (\<lambda>r. Request h (fst r) (snd r)) reqs) s =
     s\<lparr>listeners := listeners s @
          waiting (next_listener s) (next_promise s) (h_window (handles s h)) h reqs,
       next_listener := next_listener s + length reqs,
       promises := (\<lambda>p. if next_promise s \<le> p \<and> p < next_promise s + length reqs
                         then Pending else promises s p),
       next_promise := next_promise s + length reqs\<rparr>"
proof (induction reqs arbitrary: s)
  case Nil
  have "(\<lambda>p. if next_promise s \<le> p \<and> p < next_promise s then Pending else promises s p) =
      promises s"
    by (rule ext) auto
  then show ?case by simp
next
  case (Cons r rs)
  obtain q t where r: "r = (q, t)" by (cases r)
  let ?s' = "request h q t s"
  have s': "?s' = s\<lparr>listeners := listeners s @
          [(next_listener s, h_window (handles s h),
            OnMessage h (Some \<lparr>wt_promise = next_promise s, wt_message = q,
              wt_windowObj = target_window (h_window (handles s h)) t\<rparr>))],
       next_listener := Suc (next_listener s),
       promises := (promises s)(next_promise s := Pending),
       next_promise := Suc (next_promise s)\<rparr>"
    using Cons.prems by (rule request_waits)
  have flag: "\<not> h_isSetup (handles ?s' h)"
    using Cons.prems by (simp add: s')
  show ?case (is "?L = ?R")
  proof -
    have "?L = run (map (\<lambda>r. Request h (fst r) (snd r)) rs) ?s'"
      by (simp add: r)
    also have "\<dots> = ?s'\<lparr>listeners := listeners ?s' @
          waiting (next_listener ?s') (next_promise ?s') (h_window (handles ?s' h)) h rs,
       next_listener := next_listener ?s' + length rs,
       promises := (\<lambda>p. if next_promise ?s' \<le> p \<and> p < next_promise ?s' + length rs
                         then Pending else promises ?s' p),
       next_promise := next_promise ?s' + length rs\<rparr>"
      by (rule Cons.IH [OF flag])
    also have "\<dots> = ?R"
      by (rule World.equality) (auto simp add: s' r fun_eq_iff)
    finally show ?thesis .
  qed
qed

lemma waiting_lids: "x \<in> set (waiting l p w h rs) \<Longrightarrow> l \<le> fst x"
  by (induction l p w h rs rule: waiting.induct) auto

lemma waiting_windows: "x \<in> set (waiting l p w h rs) \<Longrightarrow> fst (snd x) = w"
  by (induction l p w h rs rule: waiting.induct) auto

lemma filter_waiting_lid:
  "filter (\<lambda>x. fst x \<noteq> l) (waiting (Suc l) p w h rs) = waiting (Suc l) p w h rs"
  by (rule filter_True) (auto dest: waiting_lids)

lemma filter_waiting_pos:
  "filter (\<lambda>x. 0 < fst x) (waiting (Suc l) p w h rs) = waiting (Suc l) p w h rs"
  by (rule filter_True) (auto dest: waiting_lids)

lemma filter_waiting_window:
  "filter (\<lambda>x. fst (snd x) = w) (waiting l p w h rs) = waiting l p w h rs"
  by (rule filter_True) (auto dest: waiting_windows)

lemma waiters_unblocked:
  assumes "listeners s = waiting l p w h reqs @ added"
    and "h_isSetup (handles s h)"
    and "setup_announcement s h w e"
    and "l + length reqs \<le> next_listener s"
    and "\<forall>x\<in>set added. l + length reqs \<le> fst x"
  shows "dispatch_list (waiting l p w h reqs) e s =
     s\<lparr>listeners := added @
          subscribed (next_listener s) p w (responseChannel (h_channel (handles s h))) reqs,
       next_listener := next_listener s + length reqs,
       queue := queue s @ map (envelope w (h_channel (handles s h))) reqs\<rparr>"
  using assms
proof (induction reqs arbitrary: s l p added)
  case Nil
  then show ?case by simp
next
  case (Cons r rs)
  obtain q t where r: "r = (q, t)" by (cases r)
  let ?c = "h_channel (handles s h)"
  let ?wt = "\<lparr>wt_promise = p, wt_message = q, wt_windowObj = target_window w t\<rparr>"
  let ?new = "(next_listener s, w, RequestMessageHandler p (responseChannel ?c))"
  let ?s' = "s\<lparr>listeners := waiting (Suc l) (Suc p) w h rs @ (added @ [?new]),
       next_listener := Suc (next_listener s),
       queue := queue s @ [envelope w ?c r]\<rparr>"
  have same: "(handles s)(h := (handles s h)\<lparr>h_isSetup := True\<rparr>) = handles s"
    using Cons.prems(2) by (intro ext) simp
  have keep: "filter (\<lambda>x. fst x \<noteq> l) added = added"
    using Cons.prems(5) by (intro filter_True) auto
  have inv: "invoke l w (OnMessage h (Some ?wt)) e s = ?s'"
    using Cons.prems(1,3)
    by (simp add: r onMessage_def setup_announcement_def removeEventListener_def
        request_send_def postMessage_def addEventListener_def envelope_def same keep
        filter_waiting_lid Let_def)
  have here: "l \<in> fst ` set (listeners s)"
    using Cons.prems(1) by (simp add: r)
  have step: "dispatch_list (waiting l p w h (r # rs)) e s =
      dispatch_list (waiting (Suc l) (Suc p) w h rs) e ?s'"
    using here inv by (simp add: r)
  have "dispatch_list (waiting (Suc l) (Suc p) w h rs) e ?s' =
     ?s'\<lparr>listeners := (added @ [?new]) @
          subscribed (next_listener ?s') (Suc p) w (responseChannel (h_channel (handles ?s' h))) rs,
       next_listener := next_listener ?s' + length rs,
       queue := queue ?s' @ map (envelope w (h_channel (handles ?s' h))) rs\<rparr>"
  proof (rule Cons.IH)
    show "listeners ?s' = waiting (Suc l) (Suc p) w h rs @ (added @ [?new])" by simp
    show "h_isSetup (handles ?s' h)" using Cons.prems(2) by simp
    show "setup_announcement ?s' h w e"
      using Cons.prems(3) by (simp add: setup_announcement_def)
    show "Suc l + length rs \<le> next_listener ?s'" using Cons.prems(4) by simp
    show "\<forall>x\<in>set (added @ [?new]). Suc l + length rs \<le> fst x"
      using Cons.prems(4,5) by auto
  qed
  with step show ?case by simp
qed


lemma onMessage_other_event:
  "\<not> setup_announcement s h w e \<Longrightarrow> invoke l w (OnMessage h wt) e s = s"
  by (auto simp add: onMessage_def setup_announcement_def Let_def)

lemma setup_listeners_other_event:
  "\<forall>x\<in>set ls. \<exists>l wt. x = (l, w, OnMessage h wt) \<Longrightarrow> \<not> setup_announcement s h w e \<Longrightarrow>
   dispatch_list ls e s = s"
proof (induction ls)
  case Nil
  then show ?case by simp
next
  case (Cons x ls)
  from Cons.prems(1) obtain l wt where x: "x = (l, w, OnMessage h wt)" by auto
  from Cons.prems(2) have "invoke l w (OnMessage h wt) e s = s"
    by (rule onMessage_other_event)
  with Cons x show ?case by simp
qed

lemma waiting_setup_listeners:
  "x \<in> set (waiting l p w h rs) \<Longrightarrow> \<exists>l wt. x = (l, w, OnMessage h wt)"
  by (induction l p w h rs rule: waiting.induct) auto

lemma fresh_channel:
  "createChannel w c (init ws) =
     \<lparr>windows = ws,
      handles = (\<lambda>_. \<lparr>h_window = 0, h_channel = [], h_isSetup = False\<rparr>)
        (0 := \<lparr>h_window = w, h_channel = c, h_isSetup = False\<rparr>),
      next_handle = 1, listeners = [(0, w, OnMessage 0 None)], next_listener = 1,
      promises = (\<lambda>_. Pending), next_promise = 0,
      queue = [], jobs = [], invoked = []\<rparr>"
  by (simp add: createChannel_def processSetupMsg_def addEventListener_def init_def)

lemma pending_requests_state: "pending_requests ws w c reqs = waiting_state ws w c reqs"
proof -
  let ?s0 = "createChannel w c (init ws) :: 'a World"
  have flag: "\<not> h_isSetup (handles ?s0 0)" by (simp add: fresh_channel)
  have "pending_requests ws w c reqs = run (map (\<lambda>r. Request 0 (fst r) (snd r)) reqs) ?s0"
    by (simp add: pending_requests_def)
  also have "\<dots> = ?s0\<lparr>listeners := listeners ?s0 @
          waiting (next_listener ?s0) (next_promise ?s0) (h_window (handles ?s0 0)) 0 reqs,
       next_listener := next_listener ?s0 + length reqs,
       promises := (\<lambda>p. if next_promise ?s0 \<le> p \<and> p < next_promise ?s0 + length reqs
                         then Pending else promises ?s0 p),
       next_promise := next_promise ?s0 + length reqs\<rparr>"
    by (rule requests_wait [OF flag])
  also have "\<dots> = waiting_state ws w c reqs"
    unfolding waiting_state_def
    by (rule World.equality) (auto simp add: fresh_channel fun_eq_iff)
  finally show ?thesis .
qed


lemma waiting_state_other_event:
  assumes "\<not> (w' = w \<and> setup_announcement (waiting_state ws w c reqs) 0 w e)"
  shows "dispatch w' e (waiting_state ws w c reqs) = waiting_state ws w c reqs"
proof (cases "w' = w")
  case True
  let ?s = "waiting_state ws w c reqs"
  have ls: "filter (\<lambda>x. fst (snd x) = w) (listeners ?s) = listeners ?s"
    by (simp add: waiting_state_def filter_waiting_window)
  have "\<forall>x\<in>set (listeners ?s). \<exists>l wt. x = (l, w, OnMessage 0 wt)"
    by (auto simp add: waiting_state_def dest: waiting_setup_listeners)
  moreover from assms True have "\<not> setup_announcement ?s 0 w e" by simp
  ultimately have "dispatch_list (listeners ?s) e ?s = ?s"
    by (rule setup_listeners_other_event)
  with True ls show ?thesis by (simp add: dispatch_def)
next
  case False
  have "filter (\<lambda>x. fst (snd x) = w') (listeners (waiting_state ws w c reqs)) = []"
    using False by (auto simp add: waiting_state_def filter_empty_conv dest: waiting_windows)
  then show ?thesis by (simp add: dispatch_def)
qed

lemma waiting_state_setup:
  assumes "setup_announcement (waiting_state ws w c reqs) 0 w e"
  shows "dispatch w e (waiting_state ws w c reqs) =
     (waiting_state ws w c reqs)
       \<lparr>handles := (handles (waiting_state ws w c reqs))
          (0 := \<lparr>h_window = w, h_channel = c, h_isSetup = True\<rparr>),
        listeners := subscribed (Suc (length reqs)) 0 w (responseChannel c) reqs,
        next_listener := Suc (length reqs) + length reqs,
        queue := map (envelope w c) reqs\<rparr>"
proof -
  let ?s = "waiting_state ws w c reqs"
  let ?s2 = "?s\<lparr>handles := (handles ?s)(0 := \<lparr>h_window = w, h_channel = c, h_isSetup = True\<rparr>),
      listeners := waiting (Suc 0) 0 w 0 reqs\<rparr>"
  have ls: "filter (\<lambda>x. fst (snd x) = w) (listeners ?s) =
      (0, w, OnMessage 0 None) # waiting (Suc 0) 0 w 0 reqs"
    by (simp add: waiting_state_def filter_waiting_window)
  have inv: "invoke 0 w (OnMessage 0 None) e ?s = ?s2"
    using assms
    by (simp add: onMessage_def setup_announcement_def removeEventListener_def
        waiting_state_def filter_waiting_pos Let_def)
  have here: "0 \<in> fst ` set (listeners ?s)"
    by (simp add: waiting_state_def)
  have "dispatch w e ?s = dispatch_list (waiting (Suc 0) 0 w 0 reqs) e ?s2"
    using here inv by (simp add: dispatch_def ls)
  also have "\<dots> = ?s2\<lparr>listeners := [] @
          subscribed (next_listener ?s2) 0 w (responseChannel (h_channel (handles ?s2 0))) reqs,
       next_listener := next_listener ?s2 + length reqs,
       queue := queue ?s2 @ map (envelope w (h_channel (handles ?s2 0))) reqs\<rparr>"
  proof (rule waiters_unblocked)
    show "listeners ?s2 = waiting (Suc 0) 0 w 0 reqs @ []" by simp
    show "h_isSetup (handles ?s2 0)" by simp
    show "setup_announcement ?s2 0 w e"
      using assms by (simp add: setup_announcement_def waiting_state_def)
    show "Suc 0 + length reqs \<le> next_listener ?s2" by (simp add: waiting_state_def)
    show "\<forall>x\<in>set []. Suc 0 + length reqs \<le> fst x" by simp
  qed
  also have "\<dots> = ?s\<lparr>handles := (handles ?s)(0 := \<lparr>h_window = w, h_channel = c, h_isSetup = True\<rparr>),
        listeners := subscribed (Suc (length reqs)) 0 w (responseChannel c) reqs,
        next_listener := Suc (length reqs) + length reqs,
        queue := map (envelope w c) reqs\<rparr>"
    by (simp add: waiting_state_def)
  finally show ?thesis .
qed

text \<open>
  C5. On a fresh page a channel is created in window \<open>w\<close> and \<open>N\<close> requests are made
  before any setup announcement (\<open>reqs\<close> lists their messages and targets, \<open>N\<close> is its
  length). Then nothing has been posted, the flag is unset and every call is pending;
  an event that is not a same-origin setup announcement on the request topic changes
  nothing, whatever window it is dispatched to; and the dispatch of one setup
  announcement makes all \<open>N\<close> calls go on: the queue holds their \<open>N\<close> request envelopes
  in call order, each call has subscribed its own listener, and each still awaits its
  response.
\<close>

theorem waiting_requests_unblocked_together:
  "queue (pending_requests ws w c reqs) = [] \<and>
   \<not> h_isSetup (handles (pending_requests ws w c reqs) 0) \<and>
   (\<forall>i<length reqs. promises (pending_requests ws w c reqs) i = Pending) \<and>
   (\<not> (w' = w \<and> setup_announcement (pending_requests ws w c reqs) 0 w e) \<longrightarrow>
      dispatch w' e (pending_requests ws w c reqs) = pending_requests ws w c reqs) \<and>
   (setup_announcement (pending_requests ws w c reqs) 0 w e \<longrightarrow>
      queue (dispatch w e (pending_requests ws w c reqs)) = map (envelope w c) reqs \<and>
      listeners (dispatch w e (pending_requests ws w c reqs)) =
        subscribed (Suc (length reqs)) 0 w (responseChannel c) reqs \<and>
      h_isSetup (handles (dispatch w e (pending_requests ws w c reqs)) 0) \<and>
      (\<forall>i<length reqs. promises (dispatch w e (pending_requests ws w c reqs)) i = Pending))"
proof (intro conjI impI)
  show "queue (pending_requests ws w c reqs) = []"
    by (simp add: pending_requests_state waiting_state_def)
  show "\<not> h_isSetup (handles (pending_requests ws w c reqs) 0)"
    by (simp add: pending_requests_state waiting_state_def)
  show "\<forall>i<length reqs. promises (pending_requests ws w c reqs) i = Pending"
    by (simp add: pending_requests_state waiting_state_def)
next
  assume "\<not> (w' = w \<and> setup_announcement (pending_requests ws w c reqs) 0 w e)"
  then show "dispatch w' e (pending_requests ws w c reqs) = pending_requests ws w c reqs"
    unfolding pending_requests_state by (rule waiting_state_other_event)
next
  assume a: "setup_announcement (pending_requests ws w c reqs) 0 w e"
  then have a': "setup_announcement (waiting_state ws w c reqs) 0 w e"
    by (simp add: pending_requests_state)
  show "queue (dispatch w e (pending_requests ws w c reqs)) = map (envelope w c) reqs"
    unfolding pending_requests_state by (simp add: waiting_state_setup [OF a'])
  show "listeners (dispatch w e (pending_requests ws w c reqs)) =
        subscribed (Suc (length reqs)) 0 w (responseChannel c) reqs"
    unfolding pending_requests_state by (simp add: waiting_state_setup [OF a'])
  show "h_isSetup (handles (dispatch w e (pending_requests ws w c reqs)) 0)"
    unfolding pending_requests_state by (simp add: waiting_state_setup [OF a'])
  have "promises (dispatch w e (waiting_state ws w c reqs)) =
      promises (waiting_state ws w c reqs)"
    by (simp add: waiting_state_setup [OF a'])
  then show "\<forall>i<length reqs. promises (dispatch w e (pending_requests ws w c reqs)) i = Pending"
    unfolding pending_requests_state by (simp add: waiting_state_def)
qed

theorem waiting_requests_unblocked_together_witness:
  "setup_announcement
     (pending_requests same_origin_pair 0 ''/greeting'' [(Some 1, Some 1), (Some 2, None)])
     0 0 (setup_event ''https://app.example'' ''/greeting'' :: nat MessageEvent) \<and>
   map p_target (queue (dispatch 0 (setup_event ''https://app.example'' ''/greeting'')
     (pending_requests same_origin_pair 0 ''/greeting''
       [(Some (1::nat), Some 1), (Some 2, None)]))) = [1, 0] \<and>
   map (data \<circ> p_msg) (queue (dispatch 0 (setup_event ''https://app.example'' ''/greeting'')
     (pending_requests same_origin_pair 0 ''/greeting''
       [(Some (1::nat), Some 1), (Some 2, None)]))) = [Some 1, Some 2] \<and>
   \<not> (0 = (0::nat) \<and> setup_announcement
     (pending_requests same_origin_pair 0 ''/greeting'' [(Some 1, Some 1), (Some 2, None)])
     0 0 (foreign_event :: nat MessageEvent)) \<and>
   queue (dispatch 0 foreign_event
     (pending_requests same_origin_pair 0 ''/greeting''
       [(Some (1::nat), Some 1), (Some 2, None)])) = []"
proof -
  let ?reqs = "[(Some (1::nat), Some 1), (Some 2, None)]"
  let ?s = "pending_requests same_origin_pair 0 ''/greeting'' ?reqs"
  let ?e = "setup_event ''https://app.example'' ''/greeting'' :: nat MessageEvent"
  have w: "windows ?s = same_origin_pair"
    by (simp add: pending_requests_state waiting_state_def)
  have c: "h_channel (handles ?s 0) = ''/greeting''"
    by (simp add: pending_requests_state waiting_state_def)
  have a: "setup_announcement ?s 0 0 ?e"
    unfolding setup_announcement_def w c
    by (simp add: setup_event_def same_origin_pair_def requestChannel_def truthy_def)
  have b: "\<not> (0 = (0::nat) \<and> setup_announcement ?s 0 0 (foreign_event :: nat MessageEvent))"
    unfolding setup_announcement_def w c
    by (simp add: foreign_event_def same_origin_pair_def)
  from waiting_requests_unblocked_together
    [of same_origin_pair 0 "''/greeting''" ?reqs 0 ?e] a
  have 1: "queue (dispatch 0 ?e ?s) = map (envelope 0 ''/greeting'') ?reqs"
    by blast
  from waiting_requests_unblocked_together
    [of same_origin_pair 0 "''/greeting''" ?reqs 0 foreign_event] b
  have 2: "dispatch 0 foreign_event ?s = ?s \<and> queue ?s = []"
    by blast
  from a b 1 2 show ?thesis
    by (simp add: envelope_def target_window_def)
qed

section \<open>Repeated requests\<close>

















section \<open>A request event without a source\<close>



section \<open>Round trips\<close>

subsection \<open>No answer but the responder's\<close>






















subsection \<open>Every order of the calls and of the event loop's turns\<close>

















subsection \<open>Two fixed orders\<close>







subsection \<open>A fulfilling callback\<close>




subsection \<open>A rejecting callback\<close>




end
